theory Spec2Isabelle
  imports Complex_Main "HOL-Library.Multiset"
begin

section \<open>Values\<close>

text \<open>
  The fetcher works on Python floats. They are modelled as exact rationals: every finite
  float is a rational, addition and division are taken without rounding error, and
  \<^verbatim>\<open>round(x, 2)\<close> is rounding to the nearest hundredth with ties going to the even
  neighbour. Infinities and NaN are outside the model.
\<close>

definition py_round :: "rat \<Rightarrow> int" where
  "py_round x =
     (let f = \<lfloor>x\<rfloor>; d = x - of_int f
      in if d < 1 / 2 then f else if 1 / 2 < d then f + 1 else if even f then f else f + 1)"

definition round2 :: "rat \<Rightarrow> rat" where
  "round2 x = of_int (py_round (x * 100)) / 100"

text \<open>
  \<^verbatim>\<open>datetime.utcnow()\<close> is an instant in microseconds. A run reads the clock several
  times; \<open>clock i\<close> is the \<open>i\<close>-th reading. The text form
  \<^verbatim>\<open>isoformat() + "Z"\<close> of an instant is not modelled: a field holding it holds the
  instant.
\<close>

type_synonym datetime = int

text \<open>What \<^verbatim>\<open>json.loads\<close> returns; \<open>JNull\<close> is Python's \<^verbatim>\<open>None\<close>.\<close>

datatype json =
    JNull
  | JBool bool
  | JNum rat
  | JStr string
  | JArr "json list"
  | JObj "(string \<times> json) list"

text \<open>The decimal text of an integer, as an f-string renders it.\<close>

definition digit_char :: "nat \<Rightarrow> char" where
  "digit_char d = ''0123456789'' ! d"

fun str_nat :: "nat \<Rightarrow> string" where
  "str_nat n = (if n < 10 then [digit_char n] else str_nat (n div 10) @ [digit_char (n mod 10)])"

declare str_nat.simps [simp del]

definition str_int :: "int \<Rightarrow> string" where
  "str_int i = (if i < 0 then CHR ''-'' # str_nat (nat (- i)) else str_nat (nat i))"

text \<open>\<^verbatim>\<open>f"{title_num}"\<close> where \<^verbatim>\<open>title_num\<close> may be \<^verbatim>\<open>None\<close>.\<close>

definition fmt_title_num :: "int option \<Rightarrow> string" where
  "fmt_title_num t = (case t of None \<Rightarrow> ''None'' | Some n \<Rightarrow> str_int n)"

section \<open>The aggregator: \<^verbatim>\<open>map_titles_to_agencies\<close>\<close>

text \<open>
  One element of \<^verbatim>\<open>title_contents\<close>. It is a dictionary read with \<^verbatim>\<open>.get\<close>, so
  each key may be missing (\<open>None\<close>).
\<close>

record title_content =
  title_number :: "int option"
  title_name :: "json option"
  size_mb :: "rat option"
  size_bytes :: "nat option"

text \<open>An element of an agency's \<^verbatim>\<open>titles\<close> list.\<close>

record title_entry =
  entry_title_number :: "int option"
  entry_title_name :: json
  entry_size_mb :: rat

text \<open>An entry of \<^verbatim>\<open>agency_data\<close> while the titles are being summed.\<close>

record agency_entry =
  name :: string
  code :: string
  regulation_size_mb :: rat
  titles :: "title_entry list"

text \<open>The same with the \<^verbatim>\<open>last_updated\<close> key set: one element of the result.\<close>

record agency = agency_entry +
  last_updated :: datetime

record agency_info =
  info_name :: string
  info_code :: string

definition title_agency_table :: "(int \<times> agency_info) list" where
  "title_agency_table =
    [(1, \<lparr>info_name = ''General Provisions'', info_code = ''GEN''\<rparr>),
     (2, \<lparr>info_name = ''Grants and Agreements'', info_code = ''GRANTS''\<rparr>),
     (3, \<lparr>info_name = ''The President'', info_code = ''POTUS''\<rparr>),
     (4, \<lparr>info_name = ''Accounts'', info_code = ''GAO''\<rparr>),
     (5, \<lparr>info_name = ''Administrative Personnel'', info_code = ''OPM''\<rparr>),
     (6, \<lparr>info_name = ''Domestic Security'', info_code = ''DHS''\<rparr>),
     (7, \<lparr>info_name = ''Agriculture'', info_code = ''USDA''\<rparr>),
     (8, \<lparr>info_name = ''Aliens and Nationality'', info_code = ''USCIS''\<rparr>),
     (9, \<lparr>info_name = ''Animals and Animal Products'', info_code = ''APHIS''\<rparr>),
     (10, \<lparr>info_name = ''Energy'', info_code = ''DOE''\<rparr>),
     (11, \<lparr>info_name = ''Federal Elections'', info_code = ''FEC''\<rparr>),
     (12, \<lparr>info_name = ''Banks and Banking'', info_code = ''FRB''\<rparr>),
     (13, \<lparr>info_name = ''Business Credit and Assistance'', info_code = ''SBA''\<rparr>),
     (14, \<lparr>info_name = ''Aeronautics and Space'', info_code = ''FAA''\<rparr>),
     (15, \<lparr>info_name = ''Commerce and Foreign Trade'', info_code = ''DOC''\<rparr>),
     (16, \<lparr>info_name = ''Commercial Practices'', info_code = ''FTC''\<rparr>),
     (17, \<lparr>info_name = ''Commodity and Securities Exchanges'', info_code = ''SEC''\<rparr>),
     (18, \<lparr>info_name = ''Conservation of Power and Water Resources'', info_code = ''FERC''\<rparr>),
     (19, \<lparr>info_name = ''Customs Duties'', info_code = ''CBP''\<rparr>),
     (20, \<lparr>info_name = ''Employees' Benefits'', info_code = ''DOL''\<rparr>),
     (21, \<lparr>info_name = ''Food and Drugs'', info_code = ''FDA''\<rparr>),
     (22, \<lparr>info_name = ''Foreign Relations'', info_code = ''STATE''\<rparr>),
     (23, \<lparr>info_name = ''Highways'', info_code = ''FHWA''\<rparr>),
     (24, \<lparr>info_name = ''Housing and Urban Development'', info_code = ''HUD''\<rparr>),
     (25, \<lparr>info_name = ''Indians'', info_code = ''BIA''\<rparr>),
     (26, \<lparr>info_name = ''Internal Revenue'', info_code = ''IRS''\<rparr>),
     (27, \<lparr>info_name = ''Alcohol, Tobacco and Firearms'', info_code = ''ATF''\<rparr>),
     (28, \<lparr>info_name = ''Judicial Administration'', info_code = ''DOJ''\<rparr>),
     (29, \<lparr>info_name = ''Labor'', info_code = ''DOL''\<rparr>),
     (30, \<lparr>info_name = ''Mineral Resources'', info_code = ''DOI''\<rparr>),
     (31, \<lparr>info_name = ''Money and Finance: Treasury'', info_code = ''TREAS''\<rparr>),
     (32, \<lparr>info_name = ''National Defense'', info_code = ''DOD''\<rparr>),
     (33, \<lparr>info_name = ''Navigation and Navigable Waters'', info_code = ''USCG''\<rparr>),
     (34, \<lparr>info_name = ''Education'', info_code = ''ED''\<rparr>),
     (36, \<lparr>info_name = ''Parks, Forests, and Public Property'', info_code = ''NPS''\<rparr>),
     (37, \<lparr>info_name = ''Patents, Trademarks, and Copyrights'', info_code = ''USPTO''\<rparr>),
     (38, \<lparr>info_name = ''Pensions, Bonuses, and Veterans' Relief'', info_code = ''VA''\<rparr>),
     (39, \<lparr>info_name = ''Postal Service'', info_code = ''USPS''\<rparr>),
     (40, \<lparr>info_name = ''Protection of Environment'', info_code = ''EPA''\<rparr>),
     (41, \<lparr>info_name = ''Public Contracts and Property Management'', info_code = ''GSA''\<rparr>),
     (42, \<lparr>info_name = ''Public Health'', info_code = ''HHS''\<rparr>),
     (43, \<lparr>info_name = ''Public Lands: Interior'', info_code = ''BLM''\<rparr>),
     (44, \<lparr>info_name = ''Emergency Management and Assistance'', info_code = ''FEMA''\<rparr>),
     (45, \<lparr>info_name = ''Public Welfare'', info_code = ''HHS''\<rparr>),
     (46, \<lparr>info_name = ''Shipping'', info_code = ''MARAD''\<rparr>),
     (47, \<lparr>info_name = ''Telecommunication'', info_code = ''FCC''\<rparr>),
     (48, \<lparr>info_name = ''Federal Acquisition Regulations System'', info_code = ''FAR''\<rparr>),
     (49, \<lparr>info_name = ''Transportation'', info_code = ''DOT''\<rparr>),
     (50, \<lparr>info_name = ''Wildlife and Fisheries'', info_code = ''FWS''\<rparr>)]"

definition title_agency_map :: "int \<Rightarrow> agency_info option" where
  "title_agency_map = map_of title_agency_table"

text \<open>
  \<^verbatim>\<open>title_agency_map.get(title_num, {"name": f"Title {title_num} Agency",
  "code": f"T{title_num}"})\<close>: a missing title number (\<^verbatim>\<open>None\<close>) is no key of the table.
\<close>

definition fallback_info :: "int option \<Rightarrow> agency_info" where
  "fallback_info t =
     \<lparr>info_name = ''Title '' @ fmt_title_num t @ '' Agency'',
      info_code = ''T'' @ fmt_title_num t\<rparr>"

definition lookup_info :: "int option \<Rightarrow> agency_info" where
  "lookup_info t =
     (case t of
        None \<Rightarrow> fallback_info t
      | Some n \<Rightarrow> (case title_agency_map n of Some i \<Rightarrow> i | None \<Rightarrow> fallback_info t))"

text \<open>\<^verbatim>\<open>title_content.get("size_mb", 0)\<close>.\<close>

definition get_size_mb :: "title_content \<Rightarrow> rat" where
  "get_size_mb tc = (case size_mb tc of None \<Rightarrow> 0 | Some s \<Rightarrow> s)"

text \<open>\<^verbatim>\<open>title_content.get("title_name")\<close>.\<close>

definition get_title_name :: "title_content \<Rightarrow> json" where
  "get_title_name tc = (case title_name tc of None \<Rightarrow> JNull | Some v \<Rightarrow> v)"

definition make_entry :: "title_content \<Rightarrow> title_entry" where
  "make_entry tc =
     \<lparr>entry_title_number = title_number tc,
      entry_title_name = get_title_name tc,
      entry_size_mb = get_size_mb tc\<rparr>"

text \<open>
  \<^verbatim>\<open>agency_data\<close> is a dictionary keyed by agency code. A Python dictionary iterates
  in insertion order, so it is the list of its values in that order; the key of a value is
  its \<open>code\<close>.
\<close>

definition add_title :: "agency_entry list \<Rightarrow> title_content \<Rightarrow> agency_entry list" where
  "add_title agency_data tc =
     (let agency_info = lookup_info (title_number tc);
          agency_code = info_code agency_info;
          agency_data1 =
            (if agency_code \<notin> set (map code agency_data)
             then agency_data @
                    [\<lparr>name = info_name agency_info, code = agency_code,
                      regulation_size_mb = 0, titles = []\<rparr>]
             else agency_data)
      in map (\<lambda>d. if code d = agency_code
                    then d\<lparr>regulation_size_mb := regulation_size_mb d + get_size_mb tc,
                           titles := titles d @ [make_entry tc]\<rparr>
                    else d) agency_data1)"

text \<open>The first loop: over \<^verbatim>\<open>title_contents\<close>, starting from the empty dictionary.\<close>

definition aggregate :: "title_content list \<Rightarrow> agency_entry list" where
  "aggregate title_contents = foldl add_title [] title_contents"

text \<open>
  The second loop: over \<^verbatim>\<open>agency_data.items()\<close>. Each pass rounds the sum and reads
  the clock; \<open>i\<close> counts the readings taken so far.
\<close>

fun finish :: "(nat \<Rightarrow> datetime) \<Rightarrow> nat \<Rightarrow> agency_entry list \<Rightarrow> agency list" where
  "finish clock i [] = []"
| "finish clock i (d # ds) =
     \<lparr>name = name d, code = code d,
      regulation_size_mb = round2 (regulation_size_mb d),
      titles = titles d,
      last_updated = clock i\<rparr> # finish clock (Suc i) ds"

text \<open>
  \<^verbatim>\<open>list.sort(key=..., reverse=True)\<close>: descending, and elements with equal keys keep
  their order. CPython reverses the list, sorts it ascending and stably, and reverses it
  again.
\<close>

definition sort_reverse :: "('a \<Rightarrow> rat) \<Rightarrow> 'a list \<Rightarrow> 'a list" where
  "sort_reverse f xs = rev (sort_key f (rev xs))"

definition map_titles_to_agencies ::
  "(nat \<Rightarrow> datetime) \<Rightarrow> title_content list \<Rightarrow> agency list" where
  "map_titles_to_agencies clock title_contents =
     sort_reverse regulation_size_mb (finish clock 0 (aggregate title_contents))"

subsection \<open>Reading the result\<close>

text \<open>
  The agency code the first loop computes for an input element, the input elements of one
  code in input order, and the codes in the order they are first met.
\<close>

definition code_of_title :: "title_content \<Rightarrow> string" where
  "code_of_title tc = info_code (lookup_info (title_number tc))"

definition titles_of :: "string \<Rightarrow> title_content list \<Rightarrow> title_content list" where
  "titles_of c tcs = filter (\<lambda>tc. code_of_title tc = c) tcs"

definition discovery_order :: "title_content list \<Rightarrow> string list" where
  "discovery_order tcs = rev (remdups (rev (map code_of_title tcs)))"

text \<open>
  What the first loop leaves under code \<open>c\<close>: the name found with the first element of
  that code, the running sum, which starts at 0 and adds each size, and the entries.
\<close>

definition summed :: "title_content list \<Rightarrow> string \<Rightarrow> agency_entry" where
  "summed tcs c =
     \<lparr>name = info_name (lookup_info (title_number (hd (titles_of c tcs)))),
      code = c,
      regulation_size_mb = sum_list (map get_size_mb (titles_of c tcs)),
      titles = map make_entry (titles_of c tcs)\<rparr>"

text \<open>The result before it is sorted: the records in discovery order.\<close>

definition unsorted :: "(nat \<Rightarrow> datetime) \<Rightarrow> title_content list \<Rightarrow> agency list" where
  "unsorted clock tcs = finish clock 0 (aggregate tcs)"

section \<open>The remote client: \<^verbatim>\<open>fetch_title_content\<close> and the fan-out\<close>

text \<open>
  The exceptions the code meets. \<open>Exception\<close> is any exception of class
  \<^verbatim>\<open>Exception\<close> that is none of the others.
\<close>

datatype exn =
    TimeoutError
  | JSONDecodeError
  | AttributeError
  | ZeroDivisionError
  | OSError
  | HTTPException nat
  | Exception

type_synonym bytes = "char list"

text \<open>
  What the network gives to one \<^verbatim>\<open>session.get\<close>: the request raises, or there is a
  response with a status, whose \<^verbatim>\<open>read()\<close> raises or returns the body.
\<close>

record response =
  status :: int
  content :: "exn + bytes"

text \<open>
  \<^verbatim>\<open>data.get(key, default)\<close> on what \<^verbatim>\<open>json.loads\<close> returned: only a
  dictionary has \<^verbatim>\<open>.get\<close>.
\<close>

definition data_get :: "json \<Rightarrow> string \<Rightarrow> json \<Rightarrow> exn + json" where
  "data_get data k dflt =
     (case data of
        JObj kvs \<Rightarrow> Inr (case map_of kvs k of None \<Rightarrow> dflt | Some v \<Rightarrow> v)
      | _ \<Rightarrow> Inl AttributeError)"

text \<open>
  The body of the outer \<^verbatim>\<open>try\<close>. \<open>loads\<close> is \<^verbatim>\<open>json.loads\<close>, of the
  standard library. The inner \<^verbatim>\<open>try\<close> turns a \<^verbatim>\<open>JSONDecodeError\<close> into
  \<^verbatim>\<open>None\<close> and lets every other exception through.
\<close>

definition fetch_title_content_try ::
  "(bytes \<Rightarrow> exn + json) \<Rightarrow> int \<Rightarrow> exn + response \<Rightarrow> exn + title_content option" where
  "fetch_title_content_try loads title_num got =
     (case got of
        Inl e \<Rightarrow> Inl e
      | Inr resp \<Rightarrow>
          if status resp \<noteq> 200 then Inr None
          else
            (case content resp of
               Inl e \<Rightarrow> Inl e
             | Inr body \<Rightarrow>
                 (let sz_bytes = length body;
                      sz_mb = of_nat sz_bytes / (1024 * 1024)
                  in case loads body of
                       Inl JSONDecodeError \<Rightarrow> Inr None
                     | Inl e \<Rightarrow> Inl e
                     | Inr data \<Rightarrow>
                         (case data_get data ''title'' (JStr (''Title '' @ str_int title_num)) of
                            Inl e \<Rightarrow> Inl e
                          | Inr nm \<Rightarrow>
                              Inr (Some \<lparr>title_number = Some title_num,
                                         title_name = Some nm,
                                         size_mb = Some (round2 sz_mb),
                                         size_bytes = Some sz_bytes\<rparr>)))))"

text \<open>
  The two handlers of the outer \<^verbatim>\<open>try\<close>: \<^verbatim>\<open>except asyncio.TimeoutError\<close> and
  \<^verbatim>\<open>except Exception\<close>, both returning \<^verbatim>\<open>None\<close>. The result is \<open>Inl\<close> when an
  exception leaves the function.
\<close>

definition fetch_title_content ::
  "(bytes \<Rightarrow> exn + json) \<Rightarrow> int \<Rightarrow> exn + response \<Rightarrow> exn + title_content option" where
  "fetch_title_content loads title_num got =
     (case fetch_title_content_try loads title_num got of
        Inl TimeoutError \<Rightarrow> Inr None
      | Inl e \<Rightarrow> Inr None
      | Inr r \<Rightarrow> Inr r)"

text \<open>An element of the title listing.\<close>

record title_descriptor =
  number :: "int option"
  descriptor_name :: "string option"

text \<open>
  The fan-out, as the data flows: one task for each title whose number is truthy, the
  \<open>i\<close>-th task getting \<open>net i\<close> from the network; \<^verbatim>\<open>gather\<close> returns the results
  in task order, and exceptions and \<^verbatim>\<open>None\<close> are filtered out. The interleaving of
  the tasks is not modelled.
\<close>

definition fetch_all_title_contents ::
  "(bytes \<Rightarrow> exn + json) \<Rightarrow> (nat \<Rightarrow> exn + response) \<Rightarrow> title_descriptor list
     \<Rightarrow> title_content list" where
  "fetch_all_title_contents loads net titles_in =
     (let tasks =
            concat (map (\<lambda>title. case number title of
                                     None \<Rightarrow> []
                                   | Some n \<Rightarrow> if n = 0 then [] else [n]) titles_in);
          results = map (\<lambda>(i, n). fetch_title_content loads n (net i)) (enumerate 0 tasks)
      in concat (map (\<lambda>result. case result of
                                  Inl e \<Rightarrow> []
                                | Inr None \<Rightarrow> []
                                | Inr (Some tc) \<Rightarrow> [tc]) results))"

section \<open>The cycle: \<^verbatim>\<open>fetch_and_update_data\<close>\<close>

record snapshot =
  agencies :: "agency list"
  total_agencies :: nat
  total_size_mb :: rat
  last_sync :: datetime
  fetch_duration_seconds :: rat

text \<open>
  A file holds a complete document or a torn one (opened for writing and not written to
  the end).
\<close>

datatype file_content = Document snapshot | Torn

text \<open>The two paths the code touches: \<^verbatim>\<open>DATA_FILE\<close> and \<^verbatim>\<open>TEMP_FILE\<close>.\<close>

record fs =
  data_file :: "file_content option"
  temp_file :: "file_content option"

text \<open>
  What the file system does to the file operations of this run. Each of the flags
  \<open>makedirs_fails\<close>, \<open>open_fails\<close>, \<open>dump_fails\<close>, \<open>replace_fails\<close> and
  \<open>remove_fails\<close> says that the operation raises when the code calls it.
  \<open>exists_misses\<close> says that \<^verbatim>\<open>os.path.exists(TEMP_FILE)\<close> answers \<^verbatim>\<open>False\<close>
  although the file is there: \<^verbatim>\<open>os.path.exists\<close> does not raise, it returns
  \<^verbatim>\<open>False\<close> when the \<^verbatim>\<open>stat\<close> of the path is refused.
\<close>

record io_faults =
  makedirs_fails :: bool
  open_fails :: bool
  dump_fails :: bool
  replace_fails :: bool
  exists_misses :: bool
  remove_fails :: bool

text \<open>
  Steps 3 and 4. The clock was read once before (\<^verbatim>\<open>start_time\<close>, reading 0); the
  aggregator takes the next readings, then come \<^verbatim>\<open>last_sync\<close> and the end of the
  duration.
\<close>

definition build_snapshot :: "(nat \<Rightarrow> datetime) \<Rightarrow> title_content list \<Rightarrow> snapshot" where
  "build_snapshot clock title_contents =
     (let start_time = clock 0;
          agencies = map_titles_to_agencies (\<lambda>i. clock (Suc i)) title_contents;
          n = length agencies;
          total_mb = sum_list (map regulation_size_mb agencies)
      in \<lparr>agencies = agencies,
          total_agencies = length agencies,
          total_size_mb = round2 total_mb,
          last_sync = clock (Suc n),
          fetch_duration_seconds = of_int (clock (Suc (Suc n)) - start_time) / 1000000\<rparr>)"

text \<open>
  Steps 5 and 6: \<^verbatim>\<open>os.makedirs\<close>, \<^verbatim>\<open>open(TEMP_FILE, 'w')\<close>, \<^verbatim>\<open>json.dump\<close>,
  \<^verbatim>\<open>os.replace\<close>. The result is the exception raised, if any, and the files as they
  are then.
\<close>

definition write_and_replace :: "io_faults \<Rightarrow> snapshot \<Rightarrow> fs \<Rightarrow> exn option \<times> fs" where
  "write_and_replace io final_data st =
     (if makedirs_fails io then (Some OSError, st)
      else if open_fails io then (Some OSError, st)
      else if dump_fails io then (Some OSError, st\<lparr>temp_file := Some Torn\<rparr>)
      else if replace_fails io then (Some OSError, st\<lparr>temp_file := Some (Document final_data)\<rparr>)
      else (None, \<lparr>data_file = Some (Document final_data), temp_file = None\<rparr>))"

text \<open>
  \<^verbatim>\<open>os.path.exists(TEMP_FILE)\<close>: \<^verbatim>\<open>True\<close> when the file is there and its
  \<^verbatim>\<open>stat\<close> is not refused.
\<close>

definition path_exists_temp :: "io_faults \<Rightarrow> fs \<Rightarrow> bool" where
  "path_exists_temp io st = (temp_file st \<noteq> None \<and> \<not> exists_misses io)"

text \<open>
  The handler: \<^verbatim>\<open>if os.path.exists(TEMP_FILE)\<close>, then \<^verbatim>\<open>os.remove\<close> inside
  \<^verbatim>\<open>try ... except Exception: pass\<close>. When the existence test answers
  \<^verbatim>\<open>False\<close>, \<^verbatim>\<open>os.remove\<close> is not called.
\<close>

definition cleanup :: "io_faults \<Rightarrow> fs \<Rightarrow> fs" where
  "cleanup io st =
     (if path_exists_temp io st
      then (if remove_fails io then st else st\<lparr>temp_file := None\<rparr>)
      else st)"

text \<open>
  The whole cycle. The result is \<open>Inl\<close> when an exception leaves the function, and the
  files after the call otherwise.
\<close>

definition fetch_and_update_data ::
  "(nat \<Rightarrow> datetime) \<Rightarrow> (bytes \<Rightarrow> exn + json) \<Rightarrow> (nat \<Rightarrow> exn + response) \<Rightarrow> io_faults
     \<Rightarrow> title_descriptor list \<Rightarrow> fs \<Rightarrow> exn + fs" where
  "fetch_and_update_data clock loads net io titles_in st =
     (if titles_in = [] then Inr st
      else
        (let title_contents = fetch_all_title_contents loads net titles_in
         in if title_contents = [] then Inr st
            else
              (case write_and_replace io (build_snapshot clock title_contents) st of
                 (None, st1) \<Rightarrow> Inr st1
               | (Some e, st1) \<Rightarrow> Inr (cleanup io st1))))"

section \<open>The statistics accessor: \<^verbatim>\<open>get_statistics\<close>\<close>








section \<open>Properties of the aggregator\<close>

lemma discovery_order_snoc:
  "discovery_order (tcs @ [tc]) =
     (if code_of_title tc \<in> set (discovery_order tcs) then discovery_order tcs
      else discovery_order tcs @ [code_of_title tc])"
  by (simp add: discovery_order_def)

lemma set_discovery_order: "set (discovery_order tcs) = code_of_title ` set tcs"
  by (simp add: discovery_order_def)

lemma distinct_discovery_order: "distinct (discovery_order tcs)"
  by (simp add: discovery_order_def)

lemma code_summed: "code (summed tcs c) = c"
  by (simp add: summed_def)

lemma summed_other:
  "code_of_title tc \<noteq> c \<Longrightarrow> summed (tcs @ [tc]) c = summed tcs c"
  by (simp add: summed_def titles_of_def)

lemma summed_same:
  assumes "c \<in> code_of_title ` set tcs" and "code_of_title tc = c"
  shows "summed (tcs @ [tc]) c =
     (summed tcs c)\<lparr>regulation_size_mb := regulation_size_mb (summed tcs c) + get_size_mb tc,
                     titles := titles (summed tcs c) @ [make_entry tc]\<rparr>"
proof -
  from assms(1) have "titles_of c tcs \<noteq> []"
    by (auto simp: titles_of_def filter_empty_conv)
  then show ?thesis using assms(2)
    by (simp add: summed_def titles_of_def)
qed

lemma summed_new:
  assumes "code_of_title tc \<notin> code_of_title ` set tcs"
  shows "summed (tcs @ [tc]) (code_of_title tc) =
     \<lparr>name = info_name (lookup_info (title_number tc)), code = code_of_title tc,
      regulation_size_mb = get_size_mb tc, titles = [make_entry tc]\<rparr>"
proof -
  from assms have "\<forall>x\<in>set tcs. code_of_title x \<noteq> code_of_title tc"
    by (metis imageI)
  then have "titles_of (code_of_title tc) tcs = []"
    by (simp add: titles_of_def filter_empty_conv)
  then show ?thesis
    by (simp add: summed_def titles_of_def)
qed

lemma aggregate_snoc: "aggregate (tcs @ [tc]) = add_title (aggregate tcs) tc"
  by (simp add: aggregate_def)

lemma add_title_summed:
  "add_title (map (summed tcs) (discovery_order tcs)) tc =
     map (summed (tcs @ [tc])) (discovery_order (tcs @ [tc]))"
proof (cases "code_of_title tc \<in> code_of_title ` set tcs")
  case True
  then show ?thesis
    by (auto simp: add_title_def Let_def discovery_order_snoc set_discovery_order code_summed
        comp_def summed_other summed_same code_of_title_def[symmetric] image_iff)
next
  case False
  then show ?thesis
    by (auto simp: add_title_def Let_def discovery_order_snoc set_discovery_order code_summed
        comp_def summed_other summed_new code_of_title_def[symmetric] image_iff)
qed

lemma aggregate_summed: "aggregate tcs = map (summed tcs) (discovery_order tcs)"
proof (induction tcs rule: rev_induct)
  case Nil
  show ?case by (simp add: aggregate_def discovery_order_def)
next
  case (snoc tc tcs)
  then show ?case by (simp only: aggregate_snoc add_title_summed)
qed

subsection \<open>Rounding\<close>

lemma py_round_near: "\<bar>of_int (py_round y) - y\<bar> \<le> 1 / 2"
proof -
  have "of_int \<lfloor>y\<rfloor> \<le> y" and "y < of_int \<lfloor>y\<rfloor> + 1"
    by linarith+
  then show ?thesis
    by (auto simp: py_round_def Let_def)
qed

lemma round2_near: "\<bar>round2 x - x\<bar> \<le> 1 / 200"
proof -
  have "\<bar>of_int (py_round (x * 100)) - x * 100\<bar> \<le> 1 / 2"
    by (rule py_round_near)
  then show ?thesis
    by (simp add: round2_def abs_le_iff field_simps)
qed

subsection \<open>The second loop and the sort\<close>

lemma length_finish: "length (finish clock i ds) = length ds"
  by (induction ds arbitrary: i) simp_all

lemma code_finish: "map code (finish clock i ds) = map code ds"
  by (induction ds arbitrary: i) simp_all

lemma last_updated_finish:
  "map last_updated (finish clock i ds) = map clock [i..<i + length ds]"
proof (induction ds arbitrary: i)
  case Nil
  show ?case by simp
next
  case (Cons d ds)
  have "[i..<i + length (d # ds)] = i # [Suc i..<Suc i + length ds]"
    by (subst upt_rec) simp
  with Cons show ?case by simp
qed

lemma finish_elem:
  "a \<in> set (finish clock i ds) \<Longrightarrow>
     \<exists>d\<in>set ds. name a = name d \<and> code a = code d \<and>
       regulation_size_mb a = round2 (regulation_size_mb d) \<and> titles a = titles d"
  by (induction ds arbitrary: i) auto

lemma mset_sort_reverse: "mset (sort_reverse f xs) = mset xs"
  by (simp add: sort_reverse_def)

lemma set_sort_reverse: "set (sort_reverse f xs) = set xs"
  by (simp add: sort_reverse_def)

lemma length_sort_reverse: "length (sort_reverse f xs) = length xs"
  by (simp add: sort_reverse_def)

lemma sorted_sort_reverse: "sorted (rev (map f (sort_reverse f xs)))"
  by (simp add: sort_reverse_def rev_map sorted_sort_key)

lemma stable_sort_reverse:
  "filter (\<lambda>y. f y = k) (sort_reverse f xs) = filter (\<lambda>y. f y = k) xs"
proof -
  have "filter (\<lambda>y. f y = k) (sort_reverse f xs) =
          rev (filter (\<lambda>y. f y = k) (sort_key f (rev xs)))"
    by (simp add: sort_reverse_def rev_filter)
  also have "\<dots> = rev (filter (\<lambda>y. f y = k) (rev xs))"
    by (simp only: sort_key_stable)
  also have "\<dots> = filter (\<lambda>y. f y = k) xs"
    by (simp add: rev_filter)
  finally show ?thesis .
qed

lemma distinct_map_sort_reverse:
  "distinct (map g (sort_reverse f xs)) = distinct (map g xs)"
proof -
  have "mset (map g (sort_reverse f xs)) = mset (map g xs)"
    by (simp add: mset_sort_reverse)
  then show ?thesis by (rule mset_eq_imp_distinct_iff)
qed

lemma map_filter_inj:
  assumes "inj_on g (set xs)"
  shows "map g (filter P xs) = filter (\<lambda>c. c \<in> g ` {a \<in> set xs. P a}) (map g xs)"
proof -
  have "\<And>a. a \<in> set xs \<Longrightarrow> (g a \<in> g ` {a \<in> set xs. P a}) = P a"
    using assms by (auto dest: inj_onD)
  then have "filter ((\<lambda>c. c \<in> g ` {a \<in> set xs. P a}) \<circ> g) xs = filter P xs"
    by (auto intro: filter_cong)
  then show ?thesis by (simp add: filter_map)
qed

subsection \<open>The result of the aggregator\<close>

lemma code_unsorted: "map code (unsorted clock tcs) = discovery_order tcs"
  by (simp add: unsorted_def code_finish aggregate_summed comp_def code_summed)

lemma set_result: "set (map_titles_to_agencies clock tcs) = set (unsorted clock tcs)"
  by (simp add: map_titles_to_agencies_def unsorted_def set_sort_reverse)

lemma unsorted_elem:
  assumes "a \<in> set (unsorted clock tcs)"
  shows "code a \<in> code_of_title ` set tcs \<and>
         name a = name (summed tcs (code a)) \<and>
         regulation_size_mb a = round2 (sum_list (map get_size_mb (titles_of (code a) tcs))) \<and>
         titles a = map make_entry (titles_of (code a) tcs)"
proof -
  from assms obtain d where d: "d \<in> set (aggregate tcs)" "name a = name d" "code a = code d"
      "regulation_size_mb a = round2 (regulation_size_mb d)" "titles a = titles d"
    unfolding unsorted_def by (blast dest: finish_elem)
  from d(1) obtain c where c: "c \<in> set (discovery_order tcs)" "d = summed tcs c"
    by (auto simp: aggregate_summed)
  from c(2) have "code d = c" by (simp add: code_summed)
  with c d show ?thesis
    by (simp add: set_discovery_order summed_def)
qed

lemma result_elem:
  assumes "a \<in> set (map_titles_to_agencies clock tcs)"
  shows "code a \<in> code_of_title ` set tcs \<and>
         name a = name (summed tcs (code a)) \<and>
         regulation_size_mb a = round2 (sum_list (map get_size_mb (titles_of (code a) tcs))) \<and>
         titles a = map make_entry (titles_of (code a) tcs)"
  using assms unsorted_elem by (simp add: set_result)

lemma result_has_code:
  assumes "tc \<in> set tcs"
  shows "\<exists>a\<in>set (map_titles_to_agencies clock tcs). code a = code_of_title tc"
proof -
  from assms have "code_of_title tc \<in> set (map code (unsorted clock tcs))"
    by (simp add: code_unsorted set_discovery_order)
  then show ?thesis
    by (auto simp: set_result)
qed

lemma distinct_result_codes: "distinct (map code (map_titles_to_agencies clock tcs))"
  by (simp add: map_titles_to_agencies_def distinct_map_sort_reverse
      unsorted_def[symmetric] code_unsorted distinct_discovery_order)

lemma entry_sizes: "sum_list (map entry_size_mb (map make_entry xs)) = sum_list (map get_size_mb xs)"
  by (simp add: comp_def make_entry_def)

lemma titles_finish: "map titles (finish clock i ds) = map titles ds"
  by (induction ds arbitrary: i) simp_all

lemma mset_result: "mset (map_titles_to_agencies clock tcs) = mset (unsorted clock tcs)"
  by (simp add: map_titles_to_agencies_def unsorted_def mset_sort_reverse)

lemma length_result: "length (map_titles_to_agencies clock tcs) = length (unsorted clock tcs)"
  by (simp add: map_titles_to_agencies_def unsorted_def length_sort_reverse)

lemma concat_one_more:
  "distinct cs \<Longrightarrow> k \<in> set cs \<Longrightarrow>
     mset (concat (map (\<lambda>c. if k = c then x # F c else F c) cs)) =
       add_mset x (mset (concat (map F cs)))"
proof (induction cs)
  case Nil
  then show ?case by simp
next
  case (Cons c cs)
  show ?case
  proof (cases "k = c")
    case True
    with Cons.prems have "k \<notin> set cs" by simp
    then have "concat (map (\<lambda>c. if k = c then x # F c else F c) cs) = concat (map F cs)"
      by (induction cs) auto
    with True show ?thesis by simp
  next
    case False
    with Cons show ?thesis by simp
  qed
qed

lemma mset_concat_titles_of:
  "distinct cs \<Longrightarrow> code_of_title ` set tcs \<subseteq> set cs \<Longrightarrow>
     mset (concat (map (\<lambda>c. titles_of c tcs) cs)) = mset tcs"
proof (induction tcs)
  case Nil
  show ?case by (simp add: titles_of_def)
next
  case (Cons tc tcs)
  have "(\<lambda>c. titles_of c (tc # tcs)) =
          (\<lambda>c. if code_of_title tc = c then tc # titles_of c tcs else titles_of c tcs)"
    by (auto simp: titles_of_def)
  moreover have "code_of_title tc \<in> set cs"
    using Cons.prems(2) by simp
  moreover have "mset (concat (map (\<lambda>c. titles_of c tcs) cs)) = mset tcs"
    using Cons by simp
  ultimately show ?case
    using Cons.prems(1) by (simp add: concat_one_more)
qed

lemma titles_unsorted:
  "map titles (unsorted clock tcs) =
     map (\<lambda>c. map make_entry (titles_of c tcs)) (discovery_order tcs)"
  by (simp add: unsorted_def titles_finish aggregate_summed comp_def summed_def)

lemma mset_titles_unsorted:
  "mset (concat (map titles (unsorted clock tcs))) = mset (map make_entry tcs)"
proof -
  have "concat (map titles (unsorted clock tcs)) =
          map make_entry (concat (map (\<lambda>c. titles_of c tcs) (discovery_order tcs)))"
    by (simp add: titles_unsorted map_concat comp_def)
  then show ?thesis
    by (simp add: mset_concat_titles_of distinct_discovery_order set_discovery_order)
qed

lemma mset_titles_result:
  "mset (concat (map titles (map_titles_to_agencies clock tcs))) = mset (map make_entry tcs)"
proof -
  have "mset (concat (map titles (map_titles_to_agencies clock tcs))) =
          \<Sum>\<^sub># (image_mset (mset \<circ> titles) (mset (map_titles_to_agencies clock tcs)))"
    by (simp add: mset_concat comp_def flip: sum_mset_sum_list)
  also have "\<dots> = \<Sum>\<^sub># (image_mset (mset \<circ> titles) (mset (unsorted clock tcs)))"
    by (simp only: mset_result)
  also have "\<dots> = mset (concat (map titles (unsorted clock tcs)))"
    by (simp add: mset_concat comp_def flip: sum_mset_sum_list)
  finally show ?thesis by (simp add: mset_titles_unsorted)
qed

subsection \<open>The fallback identity\<close>

lemma str_nat_digits: "set (str_nat n) \<subseteq> set ''0123456789''"
proof (induction n rule: str_nat.induct)
  case (1 n)
  have d: "\<And>k. k < 10 \<Longrightarrow> digit_char k \<in> set ''0123456789''"
    unfolding digit_char_def by (rule nth_mem) simp
  show ?case
  proof (cases "n < 10")
    case True
    then show ?thesis using d[of n] by (subst str_nat.simps) simp
  next
    case False
    then show ?thesis using 1 d[of "n mod 10"] by (subst str_nat.simps) simp
  qed
qed

lemma fmt_title_num_not_REAS: "fmt_title_num t \<noteq> ''REAS''"
proof (cases t)
  case None
  then show ?thesis by (simp add: fmt_title_num_def)
next
  case (Some n)
  have "CHR ''R'' \<notin> set (str_nat m)" for m
    using str_nat_digits[of m] by auto
  then have "str_nat m \<noteq> ''REAS''" for m
    by (metis list.set_intros(1))
  then show ?thesis using Some
    by (simp add: fmt_title_num_def str_int_def)
qed

lemma table_code_not_fallback:
  assumes "title_agency_map n = Some i"
  shows "info_code i \<noteq> ''T'' @ fmt_title_num t"
proof -
  from assms have "(n, i) \<in> set title_agency_table"
    unfolding title_agency_map_def by (rule map_of_SomeD)
  then show ?thesis
    using fmt_title_num_not_REAS[of t] by (auto simp: title_agency_table_def)
qed

lemma fallback_code_name:
  assumes "info_code (lookup_info t') = ''T'' @ fmt_title_num t"
  shows "info_name (lookup_info t') = ''Title '' @ fmt_title_num t @ '' Agency''"
proof (cases t')
  case None
  with assms show ?thesis by (simp add: lookup_info_def fallback_info_def)
next
  case (Some n)
  show ?thesis
  proof (cases "title_agency_map n")
    case None
    with Some assms show ?thesis by (simp add: lookup_info_def fallback_info_def)
  next
    case (Some i)
    with \<open>t' = Some n\<close> assms table_code_not_fallback[OF Some, of t] show ?thesis
      by (simp add: lookup_info_def)
  qed
qed

lemma unmapped_code:
  assumes "case title_number tc of None \<Rightarrow> True | Some n \<Rightarrow> title_agency_map n = None"
  shows "code_of_title tc = ''T'' @ fmt_title_num (title_number tc)"
  using assms
  by (auto simp: code_of_title_def lookup_info_def fallback_info_def split: option.splits)

lemma make_entry_code:
  "make_entry tc' = make_entry tc \<Longrightarrow> code_of_title tc' = code_of_title tc"
  by (simp add: make_entry_def code_of_title_def)

lemma ne_set_empty: "x \<in> set xs \<Longrightarrow> xs \<noteq> []"
  by auto

lemmas aggregator_defs =
  map_titles_to_agencies_def aggregate_def add_title_def lookup_info_def title_agency_map_def
  title_agency_table_def sort_reverse_def round2_def py_round_def get_size_mb_def
  make_entry_def get_title_name_def fallback_info_def fmt_title_num_def str_int_def
  digit_char_def Let_def

lemma example_epa:
  "map_titles_to_agencies clock
     [\<lparr>title_number = Some 40, title_name = None, size_mb = Some 20, size_bytes = None\<rparr>,
      \<lparr>title_number = Some 40, title_name = None, size_mb = Some 25, size_bytes = None\<rparr>] =
     [\<lparr>name = ''Protection of Environment'', code = ''EPA'', regulation_size_mb = 45,
       titles =
         [\<lparr>entry_title_number = Some 40, entry_title_name = JNull, entry_size_mb = 20\<rparr>,
          \<lparr>entry_title_number = Some 40, entry_title_name = JNull, entry_size_mb = 25\<rparr>],
       last_updated = clock 0\<rparr>]"
  by (simp add: aggregator_defs)

lemma example_t99:
  "map_titles_to_agencies clock
     [\<lparr>title_number = Some 99, title_name = None, size_mb = Some 5, size_bytes = None\<rparr>] =
     [\<lparr>name = ''Title 99 Agency'', code = ''T99'', regulation_size_mb = 5,
       titles = [\<lparr>entry_title_number = Some 99, entry_title_name = JNull, entry_size_mb = 5\<rparr>],
       last_updated = clock 0\<rparr>]"
  by (simp add: aggregator_defs str_nat.simps)

lemma example_two_agencies:
  "map_titles_to_agencies clock
     [\<lparr>title_number = Some 40, title_name = None, size_mb = Some 20, size_bytes = None\<rparr>,
      \<lparr>title_number = Some 32, title_name = None, size_mb = Some 20, size_bytes = None\<rparr>] =
     [\<lparr>name = ''Protection of Environment'', code = ''EPA'', regulation_size_mb = 20,
       titles = [\<lparr>entry_title_number = Some 40, entry_title_name = JNull, entry_size_mb = 20\<rparr>],
       last_updated = clock 0\<rparr>,
      \<lparr>name = ''National Defense'', code = ''DOD'', regulation_size_mb = 20,
       titles = [\<lparr>entry_title_number = Some 32, entry_title_name = JNull, entry_size_mb = 20\<rparr>],
       last_updated = clock 1\<rparr>]"
  by (simp add: aggregator_defs)

text \<open>
  C3. On the two-element input with title 40 twice (sizes 20.0 and 25.0) the aggregator
  returns exactly one record; its code is EPA, its size is 45.0 and its titles list has
  two entries. In general a record's size is the rounded sum over all input elements of
  its code, and its titles list has one entry for each of them: an element that repeats a
  title number is added again, not dropped.
\<close>

theorem duplicate_titles_are_summed:
  "map_titles_to_agencies clock
     [\<lparr>title_number = Some 40, title_name = None, size_mb = Some 20, size_bytes = None\<rparr>,
      \<lparr>title_number = Some 40, title_name = None, size_mb = Some 25, size_bytes = None\<rparr>] =
     [\<lparr>name = ''Protection of Environment'', code = ''EPA'', regulation_size_mb = 45,
       titles =
         [\<lparr>entry_title_number = Some 40, entry_title_name = JNull, entry_size_mb = 20\<rparr>,
          \<lparr>entry_title_number = Some 40, entry_title_name = JNull, entry_size_mb = 25\<rparr>],
       last_updated = clock 0\<rparr>]
   \<and> (\<forall>a\<in>set (map_titles_to_agencies clock tcs).
        regulation_size_mb a = round2 (sum_list (map get_size_mb (titles_of (code a) tcs))) \<and>
        length (titles a) = length (titles_of (code a) tcs))"
proof (intro conjI ballI)
  fix a
  assume "a \<in> set (map_titles_to_agencies clock tcs)"
  then have r: "regulation_size_mb a = round2 (sum_list (map get_size_mb (titles_of (code a) tcs)))"
      "titles a = map make_entry (titles_of (code a) tcs)"
    using result_elem by blast+
  from r(1) show "regulation_size_mb a = round2 (sum_list (map get_size_mb (titles_of (code a) tcs)))" .
  from r(2) show "length (titles a) = length (titles_of (code a) tcs)" by simp
qed (rule example_epa)

theorem duplicate_titles_are_summed_witness:
  "regulation_size_mb (hd (map_titles_to_agencies (\<lambda>i. 0)
     [\<lparr>title_number = Some 40, title_name = None, size_mb = Some 20, size_bytes = None\<rparr>,
      \<lparr>title_number = Some 40, title_name = None, size_mb = Some 25, size_bytes = None\<rparr>])) =
     round2 (20 + 25)
   \<and> length (titles (hd (map_titles_to_agencies (\<lambda>i. 0)
     [\<lparr>title_number = Some 40, title_name = None, size_mb = Some 20, size_bytes = None\<rparr>,
      \<lparr>title_number = Some 40, title_name = None, size_mb = Some 25, size_bytes = None\<rparr>]))) = 2"
proof -
  let ?tcs = "[\<lparr>title_number = Some 40, title_name = None, size_mb = Some 20, size_bytes = None\<rparr>,
      \<lparr>title_number = Some 40, title_name = None, size_mb = Some 25, size_bytes = None\<rparr>]"
  let ?out = "map_titles_to_agencies (\<lambda>i. 0) ?tcs"
  have c: "code_of_title \<lparr>title_number = Some 40, title_name = None, size_mb = s, size_bytes = None\<rparr>
             = ''EPA''" for s
    by (simp add: code_of_title_def lookup_info_def title_agency_map_def title_agency_table_def)
  have t: "titles_of ''EPA'' ?tcs = ?tcs"
    by (simp add: titles_of_def c)
  have out: "?out \<noteq> []" "code (hd ?out) = ''EPA''"
    by (simp_all add: example_epa)
  then have "hd ?out \<in> set ?out"
    by simp
  with duplicate_titles_are_summed [of "\<lambda>i. 0" ?tcs]
  have "regulation_size_mb (hd ?out) =
          round2 (sum_list (map get_size_mb (titles_of (code (hd ?out)) ?tcs)))"
    and "length (titles (hd ?out)) = length (titles_of (code (hd ?out)) ?tcs)"
    by blast+
  then show ?thesis
    by (simp add: out(2) t get_size_mb_def)
qed

lemma entry_holder:
  assumes "tc \<in> set tcs"
  shows "\<exists>a\<in>set (map_titles_to_agencies clock tcs).
           code a = code_of_title tc \<and> make_entry tc \<in> set (titles a)"
proof -
  from assms obtain a where a: "a \<in> set (map_titles_to_agencies clock tcs)"
      "code a = code_of_title tc"
    using result_has_code by blast
  from a(1) have "titles a = map make_entry (titles_of (code a) tcs)"
    using result_elem by blast
  moreover from a(2) assms have "tc \<in> set (titles_of (code a) tcs)"
    by (simp add: titles_of_def)
  ultimately have "make_entry tc \<in> set (titles a)"
    by simp
  with a show ?thesis by blast
qed

lemma entry_holder_code:
  assumes "a \<in> set (map_titles_to_agencies clock tcs)" and "make_entry tc \<in> set (titles a)"
  shows "code a = code_of_title tc"
proof -
  from assms(1) have "titles a = map make_entry (titles_of (code a) tcs)"
    using result_elem by blast
  with assms(2) have "make_entry tc \<in> make_entry ` set (titles_of (code a) tcs)"
    by simp
  then obtain tc' where tc': "tc' \<in> set (titles_of (code a) tcs)" "make_entry tc = make_entry tc'"
    by (rule imageE)
  from tc'(1) have "code_of_title tc' = code a"
    by (simp add: titles_of_def)
  moreover from tc'(2) have "code_of_title tc = code_of_title tc'"
    by (rule make_entry_code)
  ultimately show ?thesis by simp
qed

lemma entry_holder_unique:
  assumes "a \<in> set (map_titles_to_agencies clock tcs)" and "make_entry tc \<in> set (titles a)"
    and "b \<in> set (map_titles_to_agencies clock tcs)" and "make_entry tc \<in> set (titles b)"
  shows "b = a"
proof -
  have eq: "code b = code a"
    using entry_holder_code[OF assms(1,2)] entry_holder_code[OF assms(3,4)] by simp
  have inj: "inj_on code (set (map_titles_to_agencies clock tcs))"
    using distinct_result_codes[of clock tcs] by (simp only: distinct_map)
  show ?thesis
    using inj eq assms(3) assms(1) by (rule inj_onD)
qed

lemma fallback_record:
  assumes tc: "tc \<in> set tcs"
    and un: "\<forall>n. title_number tc = Some n \<longrightarrow> title_agency_map n = None"
  shows "\<exists>a\<in>set (map_titles_to_agencies clock tcs).
           code a = ''T'' @ fmt_title_num (title_number tc) \<and>
           name a = ''Title '' @ fmt_title_num (title_number tc) @ '' Agency'' \<and>
           make_entry tc \<in> set (titles a)"
proof -
  have "case title_number tc of None \<Rightarrow> True | Some n \<Rightarrow> title_agency_map n = None"
    using un by (cases "title_number tc") simp_all
  then have c: "code_of_title tc = ''T'' @ fmt_title_num (title_number tc)"
    by (rule unmapped_code)
  from entry_holder[OF tc] obtain a where a: "a \<in> set (map_titles_to_agencies clock tcs)"
      "code a = code_of_title tc" "make_entry tc \<in> set (titles a)"
    by blast
  from a(1) have nm: "name a = name (summed tcs (code a))"
    using result_elem by blast
  from a(2) tc have "tc \<in> set (titles_of (code a) tcs)"
    by (simp add: titles_of_def)
  then have "titles_of (code a) tcs \<noteq> []"
    by (rule ne_set_empty)
  then have "hd (titles_of (code a) tcs) \<in> set (titles_of (code a) tcs)"
    by (rule hd_in_set)
  then have "code_of_title (hd (titles_of (code a) tcs)) = code a"
    by (simp add: titles_of_def)
  then have "info_code (lookup_info (title_number (hd (titles_of (code a) tcs)))) =
            ''T'' @ fmt_title_num (title_number tc)"
    unfolding code_of_title_def[symmetric] using a(2) c by (simp only:)
  then have "info_name (lookup_info (title_number (hd (titles_of (code a) tcs)))) =
            ''Title '' @ fmt_title_num (title_number tc) @ '' Agency''"
    by (rule fallback_code_name)
  then have "name a = ''Title '' @ fmt_title_num (title_number tc) @ '' Agency''"
    unfolding nm summed_def by (simp only: agency_entry.simps)
  moreover have "code a = ''T'' @ fmt_title_num (title_number tc)"
    using a(2) c by (simp only:)
  ultimately show ?thesis
    using a(1) a(3) by blast
qed

text \<open>
  C4. A title number that is no key of the lookup table gets the identity with code
  \<^verbatim>\<open>T{n}\<close> and name \<^verbatim>\<open>Title {n} Agency\<close>: the record of that code has that name and
  holds the element's entry. For title 99 with size 5.0 the result is the one record with
  code T99, name Title 99 Agency and size 5.0. No input element is dropped: each one has
  its entry in exactly one record's titles list, and the entries of all records together
  are the entries of the input elements, each as often as it was given.
\<close>

theorem unmapped_title_fallback_and_nothing_dropped:
  "map_titles_to_agencies clock
     [\<lparr>title_number = Some 99, title_name = None, size_mb = Some 5, size_bytes = None\<rparr>] =
     [\<lparr>name = ''Title 99 Agency'', code = ''T99'', regulation_size_mb = 5,
       titles = [\<lparr>entry_title_number = Some 99, entry_title_name = JNull, entry_size_mb = 5\<rparr>],
       last_updated = clock 0\<rparr>]
   \<and> (\<forall>tc\<in>set tcs. (\<forall>n. title_number tc = Some n \<longrightarrow> title_agency_map n = None) \<longrightarrow>
        (\<exists>a\<in>set (map_titles_to_agencies clock tcs).
           code a = ''T'' @ fmt_title_num (title_number tc) \<and>
           name a = ''Title '' @ fmt_title_num (title_number tc) @ '' Agency'' \<and>
           make_entry tc \<in> set (titles a)))
   \<and> (\<forall>tc\<in>set tcs. \<exists>!a. a \<in> set (map_titles_to_agencies clock tcs) \<and>
                                 make_entry tc \<in> set (titles a))
   \<and> mset (concat (map titles (map_titles_to_agencies clock tcs))) = mset (map make_entry tcs)"
proof (intro conjI ballI impI)
  show "map_titles_to_agencies clock
     [\<lparr>title_number = Some 99, title_name = None, size_mb = Some 5, size_bytes = None\<rparr>] =
     [\<lparr>name = ''Title 99 Agency'', code = ''T99'', regulation_size_mb = 5,
       titles = [\<lparr>entry_title_number = Some 99, entry_title_name = JNull, entry_size_mb = 5\<rparr>],
       last_updated = clock 0\<rparr>]"
    by (rule example_t99)
next
  fix tc
  assume "tc \<in> set tcs" and "\<forall>n. title_number tc = Some n \<longrightarrow> title_agency_map n = None"
  then show "\<exists>a\<in>set (map_titles_to_agencies clock tcs).
           code a = ''T'' @ fmt_title_num (title_number tc) \<and>
           name a = ''Title '' @ fmt_title_num (title_number tc) @ '' Agency'' \<and>
           make_entry tc \<in> set (titles a)"
    by (rule fallback_record)
next
  fix tc
  assume "tc \<in> set tcs"
  then obtain a where a: "a \<in> set (map_titles_to_agencies clock tcs)"
      "make_entry tc \<in> set (titles a)"
    using entry_holder by blast
  show "\<exists>!a. a \<in> set (map_titles_to_agencies clock tcs) \<and> make_entry tc \<in> set (titles a)"
  proof (rule ex1I)
    show "a \<in> set (map_titles_to_agencies clock tcs) \<and> make_entry tc \<in> set (titles a)"
      using a by simp
  next
    fix b
    assume "b \<in> set (map_titles_to_agencies clock tcs) \<and> make_entry tc \<in> set (titles b)"
    then show "b = a"
      using a entry_holder_unique by blast
  qed
next
  show "mset (concat (map titles (map_titles_to_agencies clock tcs))) = mset (map make_entry tcs)"
    by (rule mset_titles_result)
qed

theorem unmapped_title_fallback_and_nothing_dropped_witness:
  "title_agency_map 99 = None \<and>
   (\<exists>a\<in>set (map_titles_to_agencies (\<lambda>i. 0)
        [\<lparr>title_number = Some 99, title_name = None, size_mb = Some 5, size_bytes = None\<rparr>]).
      code a = ''T99'' \<and> name a = ''Title 99 Agency'' \<and>
      \<lparr>entry_title_number = Some 99, entry_title_name = JNull, entry_size_mb = 5\<rparr> \<in> set (titles a))"
proof -
  let ?tc = "\<lparr>title_number = Some 99, title_name = None, size_mb = Some 5, size_bytes = None\<rparr>"
  have un: "title_agency_map 99 = None"
    by (simp add: title_agency_map_def title_agency_table_def)
  then have "\<forall>n. title_number ?tc = Some n \<longrightarrow> title_agency_map n = None"
    by simp
  moreover have "?tc \<in> set [?tc]"
    by simp
  ultimately have "\<exists>a\<in>set (map_titles_to_agencies (\<lambda>i. 0) [?tc]).
           code a = ''T'' @ fmt_title_num (title_number ?tc) \<and>
           name a = ''Title '' @ fmt_title_num (title_number ?tc) @ '' Agency'' \<and>
           make_entry ?tc \<in> set (titles a)"
    using unmapped_title_fallback_and_nothing_dropped [of "\<lambda>i. 0" "[?tc]"] by blast
  moreover have "fmt_title_num (title_number ?tc) = ''99''"
    by (simp add: fmt_title_num_def str_int_def str_nat.simps digit_char_def)
  moreover have "make_entry ?tc =
      \<lparr>entry_title_number = Some 99, entry_title_name = JNull, entry_size_mb = 5\<rparr>"
    by (simp add: make_entry_def get_title_name_def get_size_mb_def)
  ultimately show ?thesis
    using un by simp
qed

text \<open>
  C5. For every input the result is well formed: the agency codes are pairwise distinct;
  each record's size is within 0.01 of the sum of the sizes of its titles; the records are
  in descending order of size, and the records of one size stand in the order in which
  their agencies were first met in the input.
\<close>

theorem agency_list_well_formed:
  "distinct (map code (map_titles_to_agencies clock tcs))
   \<and> (\<forall>a\<in>set (map_titles_to_agencies clock tcs).
        \<bar>regulation_size_mb a - sum_list (map entry_size_mb (titles a))\<bar> \<le> 1 / 100)
   \<and> sorted (rev (map regulation_size_mb (map_titles_to_agencies clock tcs)))
   \<and> (\<forall>k. map code (filter (\<lambda>a. regulation_size_mb a = k) (map_titles_to_agencies clock tcs)) =
          filter (\<lambda>c. c \<in> code ` {a \<in> set (map_titles_to_agencies clock tcs).
                                     regulation_size_mb a = k})
            (discovery_order tcs))"
proof (intro conjI ballI allI)
  show "distinct (map code (map_titles_to_agencies clock tcs))"
    by (rule distinct_result_codes)
next
  fix a
  assume "a \<in> set (map_titles_to_agencies clock tcs)"
  then have "regulation_size_mb a =
               round2 (sum_list (map get_size_mb (titles_of (code a) tcs)))"
    and "titles a = map make_entry (titles_of (code a) tcs)"
    using result_elem by blast+
  then have "regulation_size_mb a = round2 (sum_list (map entry_size_mb (titles a)))"
    by (simp only: entry_sizes)
  moreover have "\<bar>round2 x - x\<bar> \<le> 1 / 100" for x
    using round2_near[of x] by linarith
  ultimately show "\<bar>regulation_size_mb a - sum_list (map entry_size_mb (titles a))\<bar> \<le> 1 / 100"
    by simp
next
  show "sorted (rev (map regulation_size_mb (map_titles_to_agencies clock tcs)))"
    unfolding map_titles_to_agencies_def by (rule sorted_sort_reverse)
next
  fix k
  let ?P = "\<lambda>a::agency. regulation_size_mb a = k"
  have "distinct (map code (unsorted clock tcs))"
    by (simp only: code_unsorted distinct_discovery_order)
  then have inj: "inj_on code (set (unsorted clock tcs))"
    by (simp only: distinct_map)
  have "filter ?P (map_titles_to_agencies clock tcs) = filter ?P (unsorted clock tcs)"
    unfolding map_titles_to_agencies_def unsorted_def by (rule stable_sort_reverse)
  then have "map code (filter ?P (map_titles_to_agencies clock tcs)) =
               map code (filter ?P (unsorted clock tcs))"
    by (rule arg_cong)
  also have "\<dots> = filter (\<lambda>c. c \<in> code ` {a \<in> set (unsorted clock tcs). ?P a})
                      (map code (unsorted clock tcs))"
    using inj by (rule map_filter_inj)
  finally show "map code (filter ?P (map_titles_to_agencies clock tcs)) =
      filter (\<lambda>c. c \<in> code ` {a \<in> set (map_titles_to_agencies clock tcs). ?P a})
        (discovery_order tcs)"
    by (simp only: code_unsorted set_result)
qed

theorem agency_list_well_formed_witness:
  "map code (map_titles_to_agencies (\<lambda>i. 0)
     [\<lparr>title_number = Some 40, title_name = None, size_mb = Some 20, size_bytes = None\<rparr>,
      \<lparr>title_number = Some 32, title_name = None, size_mb = Some 20, size_bytes = None\<rparr>]) =
     [''EPA'', ''DOD'']
   \<and> \<bar>regulation_size_mb (hd (map_titles_to_agencies (\<lambda>i. 0)
     [\<lparr>title_number = Some 40, title_name = None, size_mb = Some 20, size_bytes = None\<rparr>,
      \<lparr>title_number = Some 32, title_name = None, size_mb = Some 20, size_bytes = None\<rparr>]))
      - 20\<bar> \<le> 1 / 100"
proof -
  let ?tcs = "[\<lparr>title_number = Some 40, title_name = None, size_mb = Some 20, size_bytes = None\<rparr>,
      \<lparr>title_number = Some 32, title_name = None, size_mb = Some 20, size_bytes = None\<rparr>]"
  let ?out = "map_titles_to_agencies (\<lambda>i. 0) ?tcs"
  have out: "map code ?out = [''EPA'', ''DOD'']" "hd ?out \<in> set ?out"
      "sum_list (map entry_size_mb (titles (hd ?out))) = 20"
    by (simp_all add: example_two_agencies)
  from agency_list_well_formed [of "\<lambda>i. 0" ?tcs] out(2)
  have "\<bar>regulation_size_mb (hd ?out) - sum_list (map entry_size_mb (titles (hd ?out)))\<bar>
          \<le> 1 / 100"
    by blast
  with out show ?thesis by simp
qed

text \<open>
  C8, as the specification states it, fails: the records of one run do not all carry the
  same \<^verbatim>\<open>last_updated\<close>. The second loop reads the clock once for each record, so
  with a clock that advances between two readings the two records of this run differ.
\<close>

theorem last_updated_differs_within_one_run:
  "last_updated (map_titles_to_agencies int
     [\<lparr>title_number = Some 40, title_name = None, size_mb = Some 20, size_bytes = None\<rparr>,
      \<lparr>title_number = Some 32, title_name = None, size_mb = Some 20, size_bytes = None\<rparr>] ! 0)
   \<noteq> last_updated (map_titles_to_agencies int
     [\<lparr>title_number = Some 40, title_name = None, size_mb = Some 20, size_bytes = None\<rparr>,
      \<lparr>title_number = Some 32, title_name = None, size_mb = Some 20, size_bytes = None\<rparr>] ! 1)"
  by (simp add: example_two_agencies)

text \<open>
  C8, amended. Each record carries a clock reading of its own run: the values of
  \<^verbatim>\<open>last_updated\<close> in the result are the first readings of the run, one for each
  record. So all records carry the same value when the clock gives the same reading
  throughout the run.
\<close>

theorem last_updated_is_a_reading_of_the_run:
  "set (map last_updated (map_titles_to_agencies clock tcs)) =
     clock ` {..<length (map_titles_to_agencies clock tcs)}
   \<and> ((\<forall>i<length (map_titles_to_agencies clock tcs). clock i = t) \<longrightarrow>
        (\<forall>a\<in>set (map_titles_to_agencies clock tcs). last_updated a = t))"
proof -
  let ?out = "map_titles_to_agencies clock tcs"
  have "map last_updated (unsorted clock tcs) = map clock [0..<length (unsorted clock tcs)]"
    unfolding unsorted_def by (simp add: last_updated_finish length_finish)
  then have "set (map last_updated (unsorted clock tcs)) = clock ` {..<length (unsorted clock tcs)}"
    by (simp add: atLeast_upt)
  then have readings: "set (map last_updated ?out) = clock ` {..<length ?out}"
    by (simp add: set_result length_result)
  have "last_updated a = t" if c: "\<forall>i<length ?out. clock i = t" and a: "a \<in> set ?out" for a
  proof -
    from a have "last_updated a \<in> set (map last_updated ?out)"
      by simp
    with readings obtain i where "i < length ?out" "last_updated a = clock i"
      by auto
    with c show ?thesis by simp
  qed
  with readings show ?thesis by blast
qed

theorem last_updated_is_a_reading_of_the_run_witness:
  "map last_updated (map_titles_to_agencies (\<lambda>i. 7)
     [\<lparr>title_number = Some 40, title_name = None, size_mb = Some 20, size_bytes = None\<rparr>,
      \<lparr>title_number = Some 32, title_name = None, size_mb = Some 20, size_bytes = None\<rparr>]) =
     [7, 7]"
proof -
  let ?tcs = "[\<lparr>title_number = Some 40, title_name = None, size_mb = Some 20, size_bytes = None\<rparr>,
      \<lparr>title_number = Some 32, title_name = None, size_mb = Some 20, size_bytes = None\<rparr>]"
  let ?out = "map_titles_to_agencies (\<lambda>i. 7) ?tcs"
  have "\<forall>i<length ?out. (\<lambda>i. 7::int) i = 7"
    by simp
  with last_updated_is_a_reading_of_the_run [of "\<lambda>i. 7" ?tcs 7]
  have all: "\<forall>a\<in>set ?out. last_updated a = 7"
    by blast
  have "length ?out = 2"
    by (simp add: example_two_agencies)
  then obtain a b where ab: "?out = [a, b]"
    by (auto simp: length_Suc_conv numeral_2_eq_2)
  with all have "last_updated a = 7" "last_updated b = 7"
    by simp_all
  with ab show ?thesis by simp
qed

section \<open>Properties of the remote client\<close>

lemma fetch_title_content_returns:
  "\<exists>r. fetch_title_content loads n got = Inr r"
  by (simp add: fetch_title_content_def split: sum.split exn.split)

lemma fetch_title_content_try_Some:
  assumes "fetch_title_content_try loads n got = Inr (Some tc)"
  shows "\<exists>resp body. got = Inr resp \<and> status resp = 200 \<and> content resp = Inr body \<and>
           size_bytes tc = Some (length body) \<and>
           size_mb tc = Some (round2 (of_nat (length body) / (1024 * 1024))) \<and>
           title_number tc = Some n \<and> (\<exists>data. loads body = Inr data)"
  using assms
  by (auto simp: fetch_title_content_try_def Let_def split: sum.splits if_splits exn.splits)

lemma fetch_title_content_Some:
  assumes "fetch_title_content loads n got = Inr (Some tc)"
  shows "fetch_title_content_try loads n got = Inr (Some tc)"
  using assms
  by (auto simp: fetch_title_content_def split: sum.splits exn.splits)

text \<open>
  C7. \<^verbatim>\<open>fetch_title_content\<close> never lets an exception out. A request that raises (a
  timeout or a transport error), a status other than 200, a body whose read raises and a
  body that \<^verbatim>\<open>json.loads\<close> rejects each give \<^verbatim>\<open>None\<close>. A result that is not
  \<^verbatim>\<open>None\<close> carries as \<^verbatim>\<open>size_bytes\<close> the length of the body that was read.
\<close>

theorem fetch_title_content_absent_on_failure:
  "(\<exists>r. fetch_title_content loads n got = Inr r)
   \<and> (\<forall>e. got = Inl e \<longrightarrow> fetch_title_content loads n got = Inr None)
   \<and> (\<forall>resp. got = Inr resp \<and> status resp \<noteq> 200 \<longrightarrow>
         fetch_title_content loads n got = Inr None)
   \<and> (\<forall>resp e. got = Inr resp \<and> content resp = Inl e \<longrightarrow>
         fetch_title_content loads n got = Inr None)
   \<and> (\<forall>resp body e. got = Inr resp \<and> content resp = Inr body \<and> loads body = Inl e \<longrightarrow>
         fetch_title_content loads n got = Inr None)
   \<and> (\<forall>tc. fetch_title_content loads n got = Inr (Some tc) \<longrightarrow>
         (\<exists>resp body. got = Inr resp \<and> content resp = Inr body \<and>
            size_bytes tc = Some (length body)))"
proof (intro conjI allI impI)
  show "\<exists>r. fetch_title_content loads n got = Inr r"
    by (rule fetch_title_content_returns)
next
  fix e
  assume "got = Inl e"
  then have "fetch_title_content_try loads n got = Inl e"
    by (simp add: fetch_title_content_try_def)
  then show "fetch_title_content loads n got = Inr None"
    by (simp add: fetch_title_content_def split: exn.split)
next
  fix resp
  assume "got = Inr resp \<and> status resp \<noteq> 200"
  then have "fetch_title_content_try loads n got = Inr None"
    by (simp add: fetch_title_content_try_def)
  then show "fetch_title_content loads n got = Inr None"
    by (simp add: fetch_title_content_def)
next
  fix resp e
  assume "got = Inr resp \<and> content resp = Inl e"
  then have "fetch_title_content_try loads n got = Inr None \<or>
             fetch_title_content_try loads n got = Inl e"
    by (simp add: fetch_title_content_try_def)
  then show "fetch_title_content loads n got = Inr None"
    by (auto simp: fetch_title_content_def split: exn.split)
next
  fix resp body e
  assume "got = Inr resp \<and> content resp = Inr body \<and> loads body = Inl e"
  then have "fetch_title_content_try loads n got = Inr None \<or>
             fetch_title_content_try loads n got = Inl e"
    by (cases e) (simp_all add: fetch_title_content_try_def)
  then show "fetch_title_content loads n got = Inr None"
    by (auto simp: fetch_title_content_def split: exn.split)
next
  fix tc
  assume "fetch_title_content loads n got = Inr (Some tc)"
  then have "fetch_title_content_try loads n got = Inr (Some tc)"
    by (rule fetch_title_content_Some)
  then show "\<exists>resp body. got = Inr resp \<and> content resp = Inr body \<and>
               size_bytes tc = Some (length body)"
    using fetch_title_content_try_Some by blast
qed

theorem fetch_title_content_absent_on_failure_witness:
  "fetch_title_content (\<lambda>b. Inl JSONDecodeError) 40 (Inl TimeoutError) = Inr None
   \<and> fetch_title_content (\<lambda>b. Inl JSONDecodeError) 40
        (Inr \<lparr>status = 500, content = Inr ''oops''\<rparr>) = Inr None
   \<and> fetch_title_content (\<lambda>b. Inl JSONDecodeError) 40
        (Inr \<lparr>status = 200, content = Inl Exception\<rparr>) = Inr None
   \<and> fetch_title_content (\<lambda>b. Inl JSONDecodeError) 40
        (Inr \<lparr>status = 200, content = Inr ''{''\<rparr>) = Inr None
   \<and> fetch_title_content (\<lambda>b. Inr (JObj [])) 40
        (Inr \<lparr>status = 200, content = Inr ''{}''\<rparr>) =
       Inr (Some \<lparr>title_number = Some 40, title_name = Some (JStr ''Title 40''),
                  size_mb = Some 0, size_bytes = Some 2\<rparr>)
   \<and> length ''{}'' = 2"
proof -
  let ?bad = "\<lambda>b::bytes. (Inl JSONDecodeError :: exn + json)"
  have "fetch_title_content ?bad 40 (Inl TimeoutError) = Inr None"
    using fetch_title_content_absent_on_failure [of ?bad 40 "Inl TimeoutError"] by blast
  moreover have "fetch_title_content ?bad 40 (Inr \<lparr>status = 500, content = Inr ''oops''\<rparr>) = Inr None"
    using fetch_title_content_absent_on_failure
      [of ?bad 40 "Inr \<lparr>status = 500, content = Inr ''oops''\<rparr>"] by simp
  moreover have "fetch_title_content ?bad 40 (Inr \<lparr>status = 200, content = Inl Exception\<rparr>) = Inr None"
    using fetch_title_content_absent_on_failure
      [of ?bad 40 "Inr \<lparr>status = 200, content = Inl Exception\<rparr>"] by simp
  moreover have "fetch_title_content ?bad 40 (Inr \<lparr>status = 200, content = Inr ''{''\<rparr>) = Inr None"
    using fetch_title_content_absent_on_failure
      [of ?bad 40 "Inr \<lparr>status = 200, content = Inr ''{''\<rparr>"] by simp
  moreover have "\<lfloor>25 / 131072 :: rat\<rfloor> = 0"
    by (simp add: floor_eq_iff)
  then have "fetch_title_content (\<lambda>b. Inr (JObj [])) 40
        (Inr \<lparr>status = 200, content = Inr ''{}''\<rparr>) =
       Inr (Some \<lparr>title_number = Some 40, title_name = Some (JStr ''Title 40''),
                  size_mb = Some 0, size_bytes = Some 2\<rparr>)"
    by (simp add: fetch_title_content_def fetch_title_content_try_def data_get_def
        round2_def py_round_def str_int_def str_nat.simps digit_char_def Let_def)
  ultimately show ?thesis by simp
qed

section \<open>Properties of the cycle\<close>

lemma no_fetch_succeeds:
  assumes "\<forall>i n. fetch_title_content loads n (net i) = Inr None"
  shows "fetch_all_title_contents loads net titles_in = []"
  using assms by (simp add: fetch_all_title_contents_def Let_def split_beta)

lemma cleanup_data_file: "data_file (cleanup io st) = data_file st"
  by (simp add: cleanup_def)

lemma cleanup_temp_file:
  "\<not> exists_misses io \<Longrightarrow> \<not> remove_fails io \<Longrightarrow> temp_file (cleanup io st) = None"
  by (simp add: cleanup_def path_exists_temp_def)

lemma cleanup_keeps_temp_file:
  "exists_misses io \<or> remove_fails io \<Longrightarrow> cleanup io st = st"
  by (auto simp: cleanup_def path_exists_temp_def)

lemma write_and_replace_fails:
  assumes "makedirs_fails io \<or> open_fails io \<or> dump_fails io \<or> replace_fails io"
  shows "\<exists>e st1. write_and_replace io d st = (Some e, st1) \<and> data_file st1 = data_file st"
  using assms by (auto simp: write_and_replace_def)

lemma write_and_replace_ok:
  assumes "\<not> makedirs_fails io" "\<not> open_fails io" "\<not> dump_fails io" "\<not> replace_fails io"
  shows "write_and_replace io d st = (None, \<lparr>data_file = Some (Document d), temp_file = None\<rparr>)"
  using assms by (simp add: write_and_replace_def)

lemma build_snapshot_totals:
  "total_agencies (build_snapshot clock tcs) = length (agencies (build_snapshot clock tcs))
   \<and> \<bar>total_size_mb (build_snapshot clock tcs) -
        sum_list (map regulation_size_mb (agencies (build_snapshot clock tcs)))\<bar> \<le> 1 / 100"
proof -
  have "\<bar>round2 x - x\<bar> \<le> 1 / 100" for x
    using round2_near[of x] by linarith
  then show ?thesis
    by (simp add: build_snapshot_def Let_def)
qed

text \<open>
  C1. When the title listing is empty, or the fan-out returns no title content, the cycle
  returns without an exception and leaves both files exactly as they were: no snapshot
  is written and the snapshot the store held is still there.
\<close>

theorem cycle_aborts_without_touching_the_store:
  assumes "titles_in = [] \<or> fetch_all_title_contents loads net titles_in = []"
  shows "fetch_and_update_data clock loads net io titles_in st = Inr st"
  using assms by (auto simp: fetch_and_update_data_def Let_def)

theorem cycle_aborts_without_touching_the_store_witness:
  "fetch_and_update_data int (\<lambda>b. Inr (JObj [])) (\<lambda>i. Inl TimeoutError)
     \<lparr>makedirs_fails = False, open_fails = False, dump_fails = False,
      replace_fails = False, exists_misses = False, remove_fails = False\<rparr>
     []
     \<lparr>data_file = Some (Document \<lparr>agencies = [], total_agencies = 0, total_size_mb = 0,
                                   last_sync = 5, fetch_duration_seconds = 1\<rparr>),
      temp_file = None\<rparr> =
   Inr \<lparr>data_file = Some (Document \<lparr>agencies = [], total_agencies = 0, total_size_mb = 0,
                                      last_sync = 5, fetch_duration_seconds = 1\<rparr>),
        temp_file = None\<rparr>
   \<and> fetch_and_update_data int (\<lambda>b. Inr (JObj [])) (\<lambda>i. Inl TimeoutError)
     \<lparr>makedirs_fails = False, open_fails = False, dump_fails = False,
      replace_fails = False, exists_misses = False, remove_fails = False\<rparr>
     [\<lparr>number = Some 40, descriptor_name = Some ''Protection of Environment''\<rparr>]
     \<lparr>data_file = Some (Document \<lparr>agencies = [], total_agencies = 0, total_size_mb = 0,
                                   last_sync = 5, fetch_duration_seconds = 1\<rparr>),
      temp_file = None\<rparr> =
   Inr \<lparr>data_file = Some (Document \<lparr>agencies = [], total_agencies = 0, total_size_mb = 0,
                                      last_sync = 5, fetch_duration_seconds = 1\<rparr>),
        temp_file = None\<rparr>"
proof -
  let ?loads = "\<lambda>b::bytes. (Inr (JObj []) :: exn + json)"
  let ?net = "\<lambda>i::nat. (Inl TimeoutError :: exn + response)"
  have "\<forall>i n. fetch_title_content ?loads n (?net i) = Inr None"
    by (simp add: fetch_title_content_def fetch_title_content_try_def)
  then have none: "fetch_all_title_contents ?loads ?net titles_in = []" for titles_in
    by (rule no_fetch_succeeds)
  show ?thesis
    using cycle_aborts_without_touching_the_store [of "[]" ?loads ?net]
      cycle_aborts_without_touching_the_store
        [of "[\<lparr>number = Some 40, descriptor_name = Some ''Protection of Environment''\<rparr>]"
          ?loads ?net]
      none
    by simp
qed

text \<open>
  C2, as the specification states it, fails: a failed write does not always end with the
  temporary file removed. Here \<^verbatim>\<open>os.replace\<close> raises and so does the
  \<^verbatim>\<open>os.remove\<close> of the handler; the handler swallows that exception and the written
  temporary file stays.
\<close>

theorem temp_file_stays_when_remove_fails:
  "fetch_and_update_data int (\<lambda>b. Inr (JObj []))
     (\<lambda>i. Inr \<lparr>status = 200, content = Inr ''{}''\<rparr>)
     \<lparr>makedirs_fails = False, open_fails = False, dump_fails = False,
      replace_fails = True, exists_misses = False, remove_fails = True\<rparr>
     [\<lparr>number = Some 40, descriptor_name = None\<rparr>]
     \<lparr>data_file = None, temp_file = None\<rparr> =
   Inr \<lparr>data_file = None,
        temp_file = Some (Document (build_snapshot int
          [\<lparr>title_number = Some 40, title_name = Some (JStr ''Title 40''),
            size_mb = Some 0, size_bytes = Some 2\<rparr>]))\<rparr>"
proof -
  have "\<lfloor>25 / 131072 :: rat\<rfloor> = 0"
    by (simp add: floor_eq_iff)
  then have "fetch_all_title_contents (\<lambda>b. Inr (JObj []))
      (\<lambda>i. Inr \<lparr>status = 200, content = Inr ''{}''\<rparr>)
      [\<lparr>number = Some 40, descriptor_name = None\<rparr>] =
      [\<lparr>title_number = Some 40, title_name = Some (JStr ''Title 40''),
        size_mb = Some 0, size_bytes = Some 2\<rparr>]"
    by (simp add: fetch_all_title_contents_def fetch_title_content_def
        fetch_title_content_try_def data_get_def round2_def py_round_def str_int_def
        str_nat.simps digit_char_def Let_def enumerate_eq_zip)
  then show ?thesis
    by (simp add: fetch_and_update_data_def write_and_replace_def cleanup_def
        path_exists_temp_def)
qed

text \<open>
  The same happens when the handler's \<^verbatim>\<open>os.path.exists\<close> answers \<^verbatim>\<open>False\<close> for
  the temporary file that is there: \<^verbatim>\<open>os.remove\<close> is then not called at all.
\<close>

lemma temp_file_stays_when_exists_misses:
  "fetch_and_update_data int (\<lambda>b. Inr (JObj []))
     (\<lambda>i. Inr \<lparr>status = 200, content = Inr ''{}''\<rparr>)
     \<lparr>makedirs_fails = False, open_fails = False, dump_fails = False,
      replace_fails = True, exists_misses = True, remove_fails = False\<rparr>
     [\<lparr>number = Some 40, descriptor_name = None\<rparr>]
     \<lparr>data_file = None, temp_file = None\<rparr> =
   Inr \<lparr>data_file = None,
        temp_file = Some (Document (build_snapshot int
          [\<lparr>title_number = Some 40, title_name = Some (JStr ''Title 40''),
            size_mb = Some 0, size_bytes = Some 2\<rparr>]))\<rparr>"
proof -
  have "\<lfloor>25 / 131072 :: rat\<rfloor> = 0"
    by (simp add: floor_eq_iff)
  then have "fetch_all_title_contents (\<lambda>b. Inr (JObj []))
      (\<lambda>i. Inr \<lparr>status = 200, content = Inr ''{}''\<rparr>)
      [\<lparr>number = Some 40, descriptor_name = None\<rparr>] =
      [\<lparr>title_number = Some 40, title_name = Some (JStr ''Title 40''),
        size_mb = Some 0, size_bytes = Some 2\<rparr>]"
    by (simp add: fetch_all_title_contents_def fetch_title_content_def
        fetch_title_content_try_def data_get_def round2_def py_round_def str_int_def
        str_nat.simps digit_char_def Let_def enumerate_eq_zip)
  then show ?thesis
    by (simp add: fetch_and_update_data_def write_and_replace_def cleanup_def
        path_exists_temp_def)
qed

text \<open>
  C2, amended. When a step of writing or publishing the snapshot raises, no exception
  leaves \<^verbatim>\<open>fetch_and_update_data\<close> and the canonical file is as it was before the
  call. The temporary file is gone afterwards whenever the handler gets to remove it:
  its \<^verbatim>\<open>os.path.exists\<close> does not answer \<^verbatim>\<open>False\<close> for a temporary file that is
  there, and the \<^verbatim>\<open>os.remove\<close> it then calls does not raise. In the other cases the
  handler leaves the files as the failed step left them.
\<close>

theorem failed_write_leaves_canonical_file:
  assumes "titles_in \<noteq> []"
    and "fetch_all_title_contents loads net titles_in \<noteq> []"
    and "makedirs_fails io \<or> open_fails io \<or> dump_fails io \<or> replace_fails io"
  shows "\<exists>st'. fetch_and_update_data clock loads net io titles_in st = Inr st' \<and>
           data_file st' = data_file st \<and>
           (\<not> exists_misses io \<and> \<not> remove_fails io \<longrightarrow> temp_file st' = None) \<and>
           (exists_misses io \<or> remove_fails io \<longrightarrow>
              (\<exists>e. write_and_replace io
                     (build_snapshot clock (fetch_all_title_contents loads net titles_in)) st =
                   (Some e, st')))"
proof -
  let ?d = "build_snapshot clock (fetch_all_title_contents loads net titles_in)"
  from assms(3) obtain e st1 where w: "write_and_replace io ?d st = (Some e, st1)"
      "data_file st1 = data_file st"
    using write_and_replace_fails by blast
  from assms(1,2) w(1)
  have "fetch_and_update_data clock loads net io titles_in st = Inr (cleanup io st1)"
    by (simp add: fetch_and_update_data_def Let_def)
  moreover have "data_file (cleanup io st1) = data_file st"
    using w(2) by (simp add: cleanup_data_file)
  moreover have "\<not> exists_misses io \<and> \<not> remove_fails io \<longrightarrow>
                   temp_file (cleanup io st1) = None"
    by (simp add: cleanup_temp_file)
  moreover have "exists_misses io \<or> remove_fails io \<longrightarrow>
                   (\<exists>e. write_and_replace io ?d st = (Some e, cleanup io st1))"
    using w(1) by (auto simp: cleanup_keeps_temp_file)
  ultimately show ?thesis by blast
qed

theorem failed_write_leaves_canonical_file_witness:
  "fetch_and_update_data int (\<lambda>b. Inr (JObj []))
     (\<lambda>i. Inr \<lparr>status = 200, content = Inr ''{}''\<rparr>)
     \<lparr>makedirs_fails = False, open_fails = False, dump_fails = True,
      replace_fails = False, exists_misses = False, remove_fails = False\<rparr>
     [\<lparr>number = Some 40, descriptor_name = None\<rparr>]
     \<lparr>data_file = Some Torn, temp_file = None\<rparr> =
   Inr \<lparr>data_file = Some Torn, temp_file = None\<rparr>"
proof -
  let ?loads = "\<lambda>b::bytes. (Inr (JObj []) :: exn + json)"
  let ?net = "\<lambda>i::nat. (Inr \<lparr>status = 200, content = Inr ''{}''\<rparr> :: exn + response)"
  let ?io = "\<lparr>makedirs_fails = False, open_fails = False, dump_fails = True,
      replace_fails = False, exists_misses = False, remove_fails = False\<rparr>"
  let ?titles = "[\<lparr>number = Some 40, descriptor_name = None\<rparr>]"
  let ?st = "\<lparr>data_file = Some Torn, temp_file = None\<rparr>"
  have "\<lfloor>25 / 131072 :: rat\<rfloor> = 0"
    by (simp add: floor_eq_iff)
  then have "fetch_all_title_contents ?loads ?net ?titles =
      [\<lparr>title_number = Some 40, title_name = Some (JStr ''Title 40''),
        size_mb = Some 0, size_bytes = Some 2\<rparr>]"
    by (simp add: fetch_all_title_contents_def fetch_title_content_def
        fetch_title_content_try_def data_get_def round2_def py_round_def str_int_def
        str_nat.simps digit_char_def Let_def enumerate_eq_zip)
  then have ne: "fetch_all_title_contents ?loads ?net ?titles \<noteq> []"
    by simp
  have "?titles \<noteq> []" and "makedirs_fails ?io \<or> open_fails ?io \<or> dump_fails ?io \<or> replace_fails ?io"
    by simp_all
  with ne obtain st' where st': "fetch_and_update_data int ?loads ?net ?io ?titles ?st = Inr st'"
      "data_file st' = data_file ?st"
      "\<not> exists_misses ?io \<and> \<not> remove_fails ?io \<longrightarrow> temp_file st' = None"
    using failed_write_leaves_canonical_file [of ?titles ?loads ?net ?io int ?st] by blast
  then have "st' = ?st"
    by (cases st') simp
  with st'(1) show ?thesis by simp
qed

text \<open>
  C6. The snapshot a cycle builds has \<^verbatim>\<open>total_agencies\<close> equal to the length of its
  agencies list and \<^verbatim>\<open>total_size_mb\<close> within 0.01 of the sum of the agencies' sizes;
  and a cycle whose listing and fan-out are not empty and whose file operations do not
  raise publishes exactly that snapshot as the canonical file.
\<close>

theorem snapshot_totals:
  "total_agencies (build_snapshot clock tcs) = length (agencies (build_snapshot clock tcs))
   \<and> \<bar>total_size_mb (build_snapshot clock tcs) -
        sum_list (map regulation_size_mb (agencies (build_snapshot clock tcs)))\<bar> \<le> 1 / 100
   \<and> (titles_in \<noteq> [] \<and> fetch_all_title_contents loads net titles_in \<noteq> [] \<and>
        \<not> makedirs_fails io \<and> \<not> open_fails io \<and> \<not> dump_fails io \<and> \<not> replace_fails io \<longrightarrow>
        (\<exists>s. fetch_and_update_data clock loads net io titles_in st =
                Inr \<lparr>data_file = Some (Document s), temp_file = None\<rparr> \<and>
             s = build_snapshot clock (fetch_all_title_contents loads net titles_in) \<and>
             total_agencies s = length (agencies s) \<and>
             \<bar>total_size_mb s - sum_list (map regulation_size_mb (agencies s))\<bar> \<le> 1 / 100))"
proof (intro conjI impI)
  show "total_agencies (build_snapshot clock tcs) = length (agencies (build_snapshot clock tcs))"
    using build_snapshot_totals by blast
next
  show "\<bar>total_size_mb (build_snapshot clock tcs) -
        sum_list (map regulation_size_mb (agencies (build_snapshot clock tcs)))\<bar> \<le> 1 / 100"
    using build_snapshot_totals by blast
next
  let ?s = "build_snapshot clock (fetch_all_title_contents loads net titles_in)"
  assume a: "titles_in \<noteq> [] \<and> fetch_all_title_contents loads net titles_in \<noteq> [] \<and>
        \<not> makedirs_fails io \<and> \<not> open_fails io \<and> \<not> dump_fails io \<and> \<not> replace_fails io"
  then have "write_and_replace io ?s st = (None, \<lparr>data_file = Some (Document ?s), temp_file = None\<rparr>)"
    by (simp add: write_and_replace_ok)
  with a have "fetch_and_update_data clock loads net io titles_in st =
                Inr \<lparr>data_file = Some (Document ?s), temp_file = None\<rparr>"
    by (simp add: fetch_and_update_data_def Let_def)
  then show "\<exists>s. fetch_and_update_data clock loads net io titles_in st =
                Inr \<lparr>data_file = Some (Document s), temp_file = None\<rparr> \<and>
             s = build_snapshot clock (fetch_all_title_contents loads net titles_in) \<and>
             total_agencies s = length (agencies s) \<and>
             \<bar>total_size_mb s - sum_list (map regulation_size_mb (agencies s))\<bar> \<le> 1 / 100"
    using build_snapshot_totals by blast
qed

theorem snapshot_totals_witness:
  "fetch_and_update_data int (\<lambda>b. Inr (JObj []))
     (\<lambda>i. Inr \<lparr>status = 200, content = Inr ''{}''\<rparr>)
     \<lparr>makedirs_fails = False, open_fails = False, dump_fails = False,
      replace_fails = False, exists_misses = False, remove_fails = False\<rparr>
     [\<lparr>number = Some 40, descriptor_name = None\<rparr>]
     \<lparr>data_file = None, temp_file = None\<rparr> =
   Inr \<lparr>data_file = Some (Document (build_snapshot int
          [\<lparr>title_number = Some 40, title_name = Some (JStr ''Title 40''),
            size_mb = Some 0, size_bytes = Some 2\<rparr>])),
        temp_file = None\<rparr>
   \<and> total_agencies (build_snapshot int
          [\<lparr>title_number = Some 40, title_name = Some (JStr ''Title 40''),
            size_mb = Some 0, size_bytes = Some 2\<rparr>]) = 1"
proof -
  let ?loads = "\<lambda>b::bytes. (Inr (JObj []) :: exn + json)"
  let ?net = "\<lambda>i::nat. (Inr \<lparr>status = 200, content = Inr ''{}''\<rparr> :: exn + response)"
  let ?io = "\<lparr>makedirs_fails = False, open_fails = False, dump_fails = False,
      replace_fails = False, exists_misses = False, remove_fails = False\<rparr>"
  let ?titles = "[\<lparr>number = Some 40, descriptor_name = None\<rparr>]"
  let ?st = "\<lparr>data_file = None, temp_file = None\<rparr>"
  let ?tcs = "[\<lparr>title_number = Some 40, title_name = Some (JStr ''Title 40''),
        size_mb = Some 0, size_bytes = Some 2\<rparr>]"
  have "\<lfloor>25 / 131072 :: rat\<rfloor> = 0"
    by (simp add: floor_eq_iff)
  then have fa: "fetch_all_title_contents ?loads ?net ?titles = ?tcs"
    by (simp add: fetch_all_title_contents_def fetch_title_content_def
        fetch_title_content_try_def data_get_def round2_def py_round_def str_int_def
        str_nat.simps digit_char_def Let_def enumerate_eq_zip)
  have hyp: "?titles \<noteq> [] \<and> fetch_all_title_contents ?loads ?net ?titles \<noteq> [] \<and>
        \<not> makedirs_fails ?io \<and> \<not> open_fails ?io \<and> \<not> dump_fails ?io \<and> \<not> replace_fails ?io"
    by (simp add: fa)
  have "length (map_titles_to_agencies (\<lambda>i. int (Suc i)) ?tcs) = 1"
    by (simp add: aggregator_defs)
  then have n: "length (agencies (build_snapshot int ?tcs)) = 1"
    by (simp add: build_snapshot_def Let_def)
  from snapshot_totals [of int ?tcs ?titles ?loads ?net ?io ?st] hyp
  have "fetch_and_update_data int ?loads ?net ?io ?titles ?st =
          Inr \<lparr>data_file = Some (Document (build_snapshot int
            (fetch_all_title_contents ?loads ?net ?titles))), temp_file = None\<rparr>"
    and "total_agencies (build_snapshot int ?tcs) = length (agencies (build_snapshot int ?tcs))"
    by blast+
  then show ?thesis
    by (simp only: fa n simp_thms)
qed

section \<open>Properties of the statistics accessor\<close>












end
